theory Spec2Isabelle
  imports Main
begin

section \<open>Data model\<close>

text \<open>
  Modelled from the spec: the point type \<open>ascii.Vector\<close> is not part of
  \<open>state-controller.js\<close>. It is an immutable pair of integer coordinates with
  addition, equality, cloning and a magnitude that the controller only compares with zero.
\<close>

datatype Vector = Vector (x: int) (y: int)

definition add :: "Vector \<Rightarrow> Vector \<Rightarrow> Vector" where
  "add a b = Vector (x a + x b) (y a + y b)"

definition equals :: "Vector \<Rightarrow> Vector \<Rightarrow> bool" where
  "equals a b = (x a = x b \<and> y a = y b)"

definition clone :: "Vector \<Rightarrow> Vector" where
  "clone a = Vector (x a) (y a)"

text \<open>
  Modelled from the spec: \<open>v.length() == 0\<close>. The magnitude of an integer vector is zero
  exactly for the zero vector, which is the only use the controller makes of it.
\<close>

definition length_is_0 :: "Vector \<Rightarrow> bool" where
  "length_is_0 v = (x v = 0 \<and> y v = 0)"

text \<open>
  Modelled from the spec: a \<open>Context\<close> holds four flags saying which neighbours of a
  cell are special.
\<close>

record Context =
  left :: bool
  right :: bool
  up :: bool
  down :: bool

text \<open>
  The grid object \<open>ascii.State\<close> is a collaborator outside \<open>state-controller.js\<close>.
  What the controller does to it is the sequence of mutating calls it issues, in order.
\<close>

datatype call =
    ClearDraw
  | CommitDraw
  | DrawSpecial Vector
  | SetValue Vector "char option"

text \<open>
  What the controller learns from the grid is the answer to its two queries. Every method
  of the file reads the grid at a single moment (no mutating call lies between two reads of
  one method), so the answers are a pair of functions: the grid as it is when the method
  reads it.
\<close>

record State =
  isSpecial :: "Vector \<Rightarrow> bool"
  getContext :: "Vector \<Rightarrow> Context"

text \<open>
  Modelled from the spec: \<open>getContext\<close> reports, for each of the four neighbours of a
  cell, whether it is special. The spec does not say which way \<open>up\<close> points; screen
  coordinates are taken (\<open>y\<close> grows downwards).
\<close>

definition grid :: "(Vector \<Rightarrow> bool) \<Rightarrow> State" where
  "grid special =
     \<lparr> isSpecial = special,
       getContext = (\<lambda>p.
         \<lparr> left = special (add p (Vector (- 1) 0)),
           right = special (add p (Vector 1 0)),
           up = special (add p (Vector 0 (- 1))),
           down = special (add p (Vector 0 1)) \<rparr>) \<rparr>"

text \<open>The cells a sequence of calls passes to \<open>drawSpecial\<close>.\<close>

fun marked :: "call list \<Rightarrow> Vector set" where
  "marked [] = {}"
| "marked (DrawSpecial p # cs) = insert p (marked cs)"
| "marked (c # cs) = marked cs"

section \<open>The orthogonal line renderer\<close>

text \<open>
  \<open>while (hX1++ < hX2) { state.drawSpecial(new ascii.Vector(hX1, hY)); }\<close>:
  the test reads \<open>hX1\<close> before the increment, the body after it.
\<close>

function hscan :: "int \<Rightarrow> int \<Rightarrow> int \<Rightarrow> call list" where
  "hscan hX1 hX2 hY =
     (if hX1 < hX2 then DrawSpecial (Vector (hX1 + 1) hY) # hscan (hX1 + 1) hX2 hY else [])"
  by pat_completeness auto
termination
  by (relation "measure (\<lambda>(hX1, hX2, hY). nat (hX2 - hX1))") auto

text \<open>
  \<open>while (vY1++ < vY2) { state.drawSpecial(new ascii.Vector(vX, vY1)); }\<close>
\<close>

function vscan :: "int \<Rightarrow> int \<Rightarrow> int \<Rightarrow> call list" where
  "vscan vY1 vY2 vX =
     (if vY1 < vY2 then DrawSpecial (Vector vX (vY1 + 1)) # vscan (vY1 + 1) vY2 vX else [])"
  by pat_completeness auto
termination
  by (relation "measure (\<lambda>(vY1, vY2, vX). nat (vY2 - vY1))") auto

declare hscan.simps [simp del] vscan.simps [simp del]

definition drawLine :: "Vector \<Rightarrow> Vector \<Rightarrow> bool \<Rightarrow> call list" where
  "drawLine startPosition endPosition clockwise =
     (let hX1 = min (x startPosition) (x endPosition);
          vY1 = min (y startPosition) (y endPosition);
          hX2 = max (x startPosition) (x endPosition);
          vY2 = max (y startPosition) (y endPosition);
          hY = (if clockwise then y startPosition else y endPosition);
          vX = (if clockwise then x endPosition else x startPosition)
      in hscan hX1 hX2 hY @ vscan vY1 vY2 vX @
         [DrawSpecial startPosition, DrawSpecial endPosition, DrawSpecial (Vector vX hY)])"

section \<open>Drawing strategies\<close>

text \<open>
  A null dereference is the only exception the file can raise: \<open>drawLine\<close> reads
  \<open>startPosition.x\<close>, and a strategy's \<open>startPosition\<close> is \<open>null\<close> until
  \<open>start\<close> has run.
\<close>

datatype error = TypeError

text \<open>A recorded end of the Move strategy: \<open>{position: ..., clockwise: ...}\<close>.\<close>

record DrawEnd =
  position :: Vector
  clockwise :: bool

text \<open>
  The four implementations of \<open>DrawFunction\<close> with their fields:
  \<open>DrawBox\<close> has \<open>startPosition\<close> (null at construction) and \<open>endPosition\<close>
  (undefined until \<open>move\<close> assigns it), \<open>DrawLine\<close> has \<open>startPosition\<close>,
  \<open>DrawFreeform\<close> has \<open>value\<close> (a character, or null to erase), and
  \<open>DrawMove\<close> has \<open>ends\<close> (null at construction).
\<close>

datatype DrawFunction =
    DrawBox "Vector option" "Vector option"
  | DrawLine "Vector option"
  | DrawFreeform "char option"
  | DrawMove "DrawEnd list option"

text \<open>
  What a method call leaves behind: the strategy object with its fields as the method
  left them, the calls issued on the grid in order, and the exception that ended the
  method, if one did.
\<close>

record outcome =
  strategy :: DrawFunction
  calls :: "call list"
  thrown :: "error option"

subsection \<open>Box\<close>

definition DrawBox_start :: "Vector option \<Rightarrow> Vector option \<Rightarrow> Vector \<Rightarrow> outcome" where
  "DrawBox_start startPosition endPosition pos =
     \<lparr> strategy = DrawBox (Some pos) endPosition, calls = [], thrown = None \<rparr>"

definition DrawBox_move :: "Vector option \<Rightarrow> Vector option \<Rightarrow> Vector \<Rightarrow> outcome" where
  "DrawBox_move startPosition endPosition pos =
     (case startPosition of
        None \<Rightarrow>
          \<lparr> strategy = DrawBox None (Some pos), calls = [ClearDraw],
            thrown = Some TypeError \<rparr>
      | Some a \<Rightarrow>
          \<lparr> strategy = DrawBox (Some a) (Some pos),
            calls = [ClearDraw] @ drawLine a pos True @ drawLine a pos False,
            thrown = None \<rparr>)"


subsection \<open>Line\<close>

definition DrawLine_start :: "Vector option \<Rightarrow> Vector \<Rightarrow> outcome" where
  "DrawLine_start startPosition pos =
     \<lparr> strategy = DrawLine (Some pos), calls = [], thrown = None \<rparr>"

text \<open>
  The two contexts are read after \<open>clearDraw\<close>: the \<open>State\<close> argument is the grid
  as it answers then. With \<open>startPosition\<close> still null the method cannot get past
  \<open>drawLine\<close>, whatever \<open>getContext(null)\<close> does.
\<close>

definition DrawLine_move :: "State \<Rightarrow> Vector option \<Rightarrow> Vector \<Rightarrow> outcome" where
  "DrawLine_move state startPosition pos =
     (case startPosition of
        None \<Rightarrow>
          \<lparr> strategy = DrawLine None, calls = [ClearDraw], thrown = Some TypeError \<rparr>
      | Some a \<Rightarrow>
          (let startContext = getContext state a;
               endContext = getContext state pos;
               clockwise = ((up startContext \<and> down startContext) \<or>
                            (left endContext \<and> right endContext))
           in \<lparr> strategy = DrawLine (Some a),
                calls = [ClearDraw] @ drawLine a pos clockwise,
                thrown = None \<rparr>))"


subsection \<open>Freeform\<close>

definition DrawFreeform_start :: "char option \<Rightarrow> Vector \<Rightarrow> outcome" where
  "DrawFreeform_start val pos =
     \<lparr> strategy = DrawFreeform val, calls = [SetValue pos val], thrown = None \<rparr>"

definition DrawFreeform_move :: "char option \<Rightarrow> Vector \<Rightarrow> outcome" where
  "DrawFreeform_move val pos =
     \<lparr> strategy = DrawFreeform val, calls = [SetValue pos val], thrown = None \<rparr>"


subsection \<open>Move\<close>

text \<open>
  \<open>followLine\<close> is a \<open>while (true)\<close> loop that only its two \<open>return\<close>s leave.
  On a grid where the run never ends it does not return: the value \<open>None\<close>.
  The loop variable is \<open>endPosition\<close>.
\<close>

partial_function (option) followLine_loop :: "State \<Rightarrow> Vector \<Rightarrow> Vector \<Rightarrow> Vector option" where
  "followLine_loop state endPosition direction =
     (let nextEnd = add endPosition direction in
      if \<not> isSpecial state nextEnd then Some endPosition
      else
        let context = getContext state nextEnd in
        if \<not> (left context \<and> right context \<and> \<not> up context \<and> \<not> down context) \<and>
           \<not> (\<not> left context \<and> \<not> right context \<and> up context \<and> down context)
        then Some nextEnd
        else followLine_loop state nextEnd direction)"

declare followLine_loop.simps [code]

definition followLine :: "State \<Rightarrow> Vector \<Rightarrow> Vector \<Rightarrow> Vector option" where
  "followLine state startPosition direction =
     followLine_loop state (clone startPosition) direction"

definition directions :: "Vector list" where
  "directions = [Vector 1 0, Vector (- 1) 0, Vector 0 1, Vector 0 (- 1)]"

text \<open>
  The inner loop \<open>for (var j in directions)\<close> of \<open>start\<close>, over the directions still
  to visit; \<open>di\<close> is \<open>directions[i]\<close> of the enclosing iteration.
\<close>

fun start_inner ::
  "State \<Rightarrow> Vector \<Rightarrow> Vector \<Rightarrow> bool \<Rightarrow> Vector list \<Rightarrow> DrawEnd list \<Rightarrow> DrawEnd list option" where
  "start_inner state midPoint di cw [] ends = Some ends"
| "start_inner state midPoint di cw (dj # js) ends =
     (if length_is_0 (add di dj) then start_inner state midPoint di cw js ends
      else
        case followLine state midPoint dj of
          None \<Rightarrow> None
        | Some end \<Rightarrow>
            if equals midPoint end then start_inner state midPoint di cw js ends
            else start_inner state midPoint di cw js
                   (ends @ [\<lparr> position = end, clockwise = cw \<rparr>]))"

text \<open>
  One iteration of the outer loop \<open>for (var i in directions)\<close>: the array \<open>ends\<close>
  before the iteration, and after it. JavaScript adds the four flags as numbers.
\<close>

definition start_body :: "State \<Rightarrow> Vector \<Rightarrow> Vector \<Rightarrow> DrawEnd list \<Rightarrow> DrawEnd list option" where
  "start_body state pos di ends =
     (case followLine state pos di of
        None \<Rightarrow> None
      | Some midPoint \<Rightarrow>
          (let cw = (x di \<noteq> 0) in
           if equals pos midPoint then Some ends
           else
             let midPointContext = getContext state midPoint in
             if (of_bool (left midPointContext) + of_bool (right midPointContext) +
                 of_bool (up midPointContext) + of_bool (down midPointContext) :: int) = 1
             then Some (ends @ [\<lparr> position = midPoint, clockwise = cw \<rparr>])
             else start_inner state midPoint di cw directions ends))"

fun start_outer :: "State \<Rightarrow> Vector \<Rightarrow> Vector list \<Rightarrow> DrawEnd list \<Rightarrow> DrawEnd list option" where
  "start_outer state pos [] ends = Some ends"
| "start_outer state pos (di # is) ends =
     (case start_body state pos di ends of
        None \<Rightarrow> None
      | Some ends' \<Rightarrow> start_outer state pos is ends')"

text \<open>
  \<open>start\<close> first reads the context of \<open>position\<close> into a variable it never uses.
  \<open>None\<close>: a \<open>followLine\<close> did not return, so \<open>start\<close> does not either.
\<close>

definition DrawMove_start :: "State \<Rightarrow> DrawEnd list option \<Rightarrow> Vector \<Rightarrow> outcome option" where
  "DrawMove_start state ends0 pos =
     (case start_outer state pos directions [] of
        None \<Rightarrow> None
      | Some ends \<Rightarrow> Some \<lparr> strategy = DrawMove (Some ends), calls = [], thrown = None \<rparr>)"

text \<open>
  \<open>for (var i in this.ends)\<close> runs no iteration while \<open>ends\<close> is still null.
\<close>

fun move_lines :: "Vector \<Rightarrow> DrawEnd list \<Rightarrow> call list" where
  "move_lines pos [] = []"
| "move_lines pos (e # es) =
     drawLine pos (position e) (clockwise e) @ move_lines pos es"

definition DrawMove_move :: "DrawEnd list option \<Rightarrow> Vector \<Rightarrow> outcome" where
  "DrawMove_move ends pos =
     \<lparr> strategy = DrawMove ends,
       calls = [ClearDraw] @ (case ends of None \<Rightarrow> [] | Some es \<Rightarrow> move_lines pos es),
       thrown = None \<rparr>"


subsection \<open>The common interface\<close>

text \<open>
  Method dispatch on the class of the strategy object. The method \<open>end\<close> is called
  \<open>finish\<close> here.
\<close>

fun start :: "State \<Rightarrow> DrawFunction \<Rightarrow> Vector \<Rightarrow> outcome option" where
  "start state (DrawBox s e) p = Some (DrawBox_start s e p)"
| "start state (DrawLine s) p = Some (DrawLine_start s p)"
| "start state (DrawFreeform v) p = Some (DrawFreeform_start v p)"
| "start state (DrawMove es) p = DrawMove_start state es p"

fun move :: "State \<Rightarrow> DrawFunction \<Rightarrow> Vector \<Rightarrow> outcome" where
  "move state (DrawBox s e) p = DrawBox_move s e p"
| "move state (DrawLine s) p = DrawLine_move state s p"
| "move state (DrawFreeform v) p = DrawFreeform_move v p"
| "move state (DrawMove es) p = DrawMove_move es p"


section \<open>The gesture dispatcher\<close>

record StateController =
  drawFunction :: DrawFunction


datatype button = BoxButton | LineButton | FreeformButton | EraseButton | MoveButton

fun click :: "button \<Rightarrow> StateController \<Rightarrow> StateController" where
  "click BoxButton c = c\<lparr> drawFunction := DrawBox None None \<rparr>"
| "click LineButton c = c\<lparr> drawFunction := DrawLine None \<rparr>"
| "click FreeformButton c = c\<lparr> drawFunction := DrawFreeform (Some CHR ''O'') \<rparr>"
| "click EraseButton c = c\<lparr> drawFunction := DrawFreeform None \<rparr>"
| "click MoveButton c = c\<lparr> drawFunction := DrawMove None \<rparr>"




section \<open>Notions the properties are stated with\<close>

text \<open>
  The spec's reading of a context whose run is still straight: left and right set with
  neither up nor down, or up and down set with neither left nor right.
\<close>

definition straight :: "Context \<Rightarrow> bool" where
  "straight c = ((left c \<and> right c \<and> \<not> up c \<and> \<not> down c) \<or>
                 (\<not> left c \<and> \<not> right c \<and> up c \<and> down c))"

definition straightCell :: "State \<Rightarrow> Vector \<Rightarrow> bool" where
  "straightCell state p = (isSpecial state p \<and> straight (getContext state p))"

text \<open>The cell \<open>n\<close> steps from \<open>p\<close> in direction \<open>d\<close>.\<close>

definition cell :: "Vector \<Rightarrow> Vector \<Rightarrow> nat \<Rightarrow> Vector" where
  "cell p d n = Vector (x p + int n * x d) (y p + int n * y d)"

text \<open>
  Tracing from \<open>p\<close> in direction \<open>d\<close> stops after \<open>n\<close> straight cells with result
  \<open>q\<close>: the cells \<open>1..n\<close> ahead are special and straight, and the next one is either
  special but not straight, and is the result, or not special, and the result is the cell
  before it.
\<close>

definition stops_at :: "State \<Rightarrow> Vector \<Rightarrow> Vector \<Rightarrow> nat \<Rightarrow> Vector \<Rightarrow> bool" where
  "stops_at state p d n q =
     ((\<forall>k<n. straightCell state (cell p d (Suc k))) \<and>
      (if isSpecial state (cell p d (Suc n))
       then \<not> straight (getContext state (cell p d (Suc n))) \<and> q = cell p d (Suc n)
       else q = cell p d n))"

text \<open>
  The grid of the spec's scenario: the only special cells are the run at row 5,
  columns 2 to 4.
\<close>

definition run_grid :: State where
  "run_grid = grid (\<lambda>p. p \<in> {Vector 2 5, Vector 3 5, Vector 4 5})"

text \<open>
  A filled diamond around the origin: the thirteen cells with \<open>|x| + |y| \<le> 2\<close>,
  as left by a plus sign with its four inner corners drawn.
\<close>

definition diamond_grid :: State where
  "diamond_grid = grid (\<lambda>p. \<bar>x p\<bar> + \<bar>y p\<bar> \<le> 2)"

text \<open>A vertical line of three cells through the origin.\<close>

definition vertical_grid :: State where
  "vertical_grid = grid (\<lambda>p. p \<in> {Vector 0 (- 1), Vector 0 0, Vector 0 1})"

section \<open>Facts about the renderer\<close>

lemma hscan_upto: "hscan a b r = map (\<lambda>px. DrawSpecial (Vector px r)) [a + 1..b]"
proof (induction a b r rule: hscan.induct)
  case (1 hX1 hX2 hY)
  show ?case
  proof (cases "hX1 < hX2")
    case True
    then have "[hX1 + 1..hX2] = (hX1 + 1) # [hX1 + 1 + 1..hX2]"
      by (simp add: upto_rec1)
    with True 1 show ?thesis
      by (subst hscan.simps) simp
  next
    case False
    then show ?thesis
      by (subst hscan.simps) simp
  qed
qed

lemma vscan_upto: "vscan a b c = map (\<lambda>py. DrawSpecial (Vector c py)) [a + 1..b]"
proof (induction a b c rule: vscan.induct)
  case (1 vY1 vY2 vX)
  show ?case
  proof (cases "vY1 < vY2")
    case True
    then have "[vY1 + 1..vY2] = (vY1 + 1) # [vY1 + 1 + 1..vY2]"
      by (simp add: upto_rec1)
    with True 1 show ?thesis
      by (subst vscan.simps) simp
  next
    case False
    then show ?thesis
      by (subst vscan.simps) simp
  qed
qed

lemma marked_append: "marked (cs @ ds) = marked cs \<union> marked ds"
  by (induction cs rule: marked.induct) auto

lemma marked_map_DrawSpecial: "marked (map (\<lambda>a. DrawSpecial (f a)) as) = f ` set as"
  by (induction as) auto

lemma marked_hscan: "marked (hscan a b r) = {Vector px r | px. a < px \<and> px \<le> b}"
  by (auto simp: hscan_upto marked_map_DrawSpecial)

lemma marked_vscan: "marked (vscan a b c) = {Vector c py | py. a < py \<and> py \<le> b}"
  by (auto simp: vscan_upto marked_map_DrawSpecial)

section \<open>Facts about line tracing\<close>

lemma cell_0: "cell p d 0 = p"
  by (simp add: cell_def)

lemma add_cell: "add (cell p d n) d = cell p d (Suc n)"
  by (simp add: cell_def add_def algebra_simps)

lemma cell_add: "cell (add p d) d n = cell p d (Suc n)"
  by (simp add: cell_def add_def algebra_simps)

lemma followLine_loop_unfold:
  "followLine_loop state e d =
     (if \<not> isSpecial state (add e d) then Some e
      else if \<not> straight (getContext state (add e d)) then Some (add e d)
      else followLine_loop state (add e d) d)"
  by (subst followLine_loop.simps) (simp add: Let_def straight_def)

lemma followLine_loop_stops:
  "stops_at state e d n q \<Longrightarrow> followLine_loop state e d = Some q"
proof (induction n arbitrary: e)
  case 0
  then show ?case
    by (subst followLine_loop_unfold)
       (auto simp: stops_at_def cell_def add_def split: if_splits)
next
  case (Suc n)
  from Suc.prems have first: "straightCell state (add e d)"
    by (auto simp: stops_at_def cell_def add_def)
  from Suc.prems have "stops_at state (add e d) d n q"
    by (auto simp: stops_at_def cell_add)
  then have "followLine_loop state (add e d) d = Some q"
    by (rule Suc.IH)
  with first show ?case
    by (subst followLine_loop_unfold) (simp add: straightCell_def)
qed

lemma stops_at_step:
  assumes "straightCell state (add e d)" and "stops_at state (add e d) d n q"
  shows "stops_at state e d (Suc n) q"
proof -
  have "straightCell state (cell e d (Suc k))" if "k < Suc n" for k
  proof (cases k)
    case 0
    with assms(1) show ?thesis by (simp add: cell_def add_def)
  next
    case (Suc j)
    with that assms(2) show ?thesis by (auto simp: stops_at_def cell_add)
  qed
  with assms(2) show ?thesis
    by (auto simp: stops_at_def cell_add)
qed

lemma followLine_loop_returns:
  "followLine_loop state e d = Some q \<Longrightarrow> \<exists>n. stops_at state e d n q"
proof (induction rule: followLine_loop.raw_induct [rotated 1, consumes 1, case_names step])
  case (step loop state e d q)
  note 1 = step
  show ?case
  proof (cases "isSpecial state (add e d)")
    case False
    with 1(2) have "stops_at state e d 0 q"
      by (auto simp: stops_at_def cell_def add_def Let_def)
    then show ?thesis ..
  next
    case True
    show ?thesis
    proof (cases "straight (getContext state (add e d))")
      case False
      with True 1(2) have "stops_at state e d 0 q"
        by (auto simp: stops_at_def cell_def add_def Let_def straight_def)
      then show ?thesis ..
    next
      case straight: True
      with True 1(2) have "loop state (add e d) d = Some q"
        by (auto simp: Let_def straight_def)
      then obtain n where "stops_at state (add e d) d n q"
        using 1(1) by blast
      with True straight have "stops_at state e d (Suc n) q"
        by (intro stops_at_step) (simp_all add: straightCell_def)
      then show ?thesis ..
    qed
  qed
qed

lemma followLine_iff:
  "followLine state p d = Some q \<longleftrightarrow> (\<exists>n. stops_at state p d n q)"
  unfolding followLine_def clone_def
  by (auto dest: followLine_loop_returns intro: followLine_loop_stops)


lemma cell_inj: "d \<noteq> Vector 0 0 \<Longrightarrow> inj (cell p d)"
proof (rule injI)
  fix m n :: nat
  assume d: "d \<noteq> Vector 0 0" and eq: "cell p d m = cell p d n"
  from d have "x d \<noteq> 0 \<or> y d \<noteq> 0"
    by (cases d) (simp add: zero_int_def)
  with eq show "m = n"
    by (auto simp: cell_def)
qed

lemma followLine_returns:
  assumes fin: "finite {p. isSpecial state p}" and d: "d \<noteq> Vector 0 0"
  shows "\<exists>q. followLine state p d = Some q"
proof -
  have "\<exists>n. \<not> straightCell state (cell p d (Suc n))"
  proof (rule ccontr)
    assume "\<not> ?thesis"
    then have "range (\<lambda>n. cell p d (Suc n)) \<subseteq> {p. isSpecial state p}"
      by (auto simp: straightCell_def)
    with fin have "finite (range (\<lambda>n. cell p d (Suc n)))"
      by (rule rev_finite_subset)
    moreover have "inj (\<lambda>n. cell p d (Suc n))"
      using cell_inj [OF d, of p] by (auto simp: inj_def)
    ultimately show False
      using finite_imageD infinite_UNIV_nat by blast
  qed
  then obtain n where n: "\<not> straightCell state (cell p d (Suc n))"
    and least: "\<forall>k<n. straightCell state (cell p d (Suc k))"
    using exists_least_iff [of "\<lambda>n. \<not> straightCell state (cell p d (Suc n))"] by auto
  define q where "q = (if isSpecial state (cell p d (Suc n)) then cell p d (Suc n) else cell p d n)"
  from n least have "stops_at state p d n q"
    by (auto simp: stops_at_def q_def straightCell_def)
  then show ?thesis
    using followLine_iff by blast
qed

lemma followLine_diverges:
  "followLine state p d = None \<longleftrightarrow> (\<forall>n. straightCell state (cell p d (Suc n)))"
proof
  assume none: "followLine state p d = None"
  show "\<forall>n. straightCell state (cell p d (Suc n))"
  proof (rule ccontr)
    assume "\<not> ?thesis"
    then obtain n where n: "\<not> straightCell state (cell p d (Suc n))"
      and least: "\<forall>k<n. straightCell state (cell p d (Suc k))"
      using exists_least_iff [of "\<lambda>n. \<not> straightCell state (cell p d (Suc n))"] by auto
    then have "stops_at state p d n
        (if isSpecial state (cell p d (Suc n)) then cell p d (Suc n) else cell p d n)"
      by (auto simp: stops_at_def straightCell_def)
    then have "\<exists>q. followLine state p d = Some q"
      using followLine_iff by blast
    with none show False by simp
  qed
next
  assume all: "\<forall>n. straightCell state (cell p d (Suc n))"
  show "followLine state p d = None"
  proof (rule ccontr)
    assume "followLine state p d \<noteq> None"
    then obtain q n where "stops_at state p d n q"
      using followLine_iff by fastforce
    with all show False
      by (auto simp: stops_at_def straightCell_def split: if_splits)
  qed
qed

section \<open>Facts about the ends that start collects\<close>

lemma start_inner_length:
  "start_inner state m di cw js ends = Some r \<Longrightarrow>
     \<exists>new. r = ends @ new \<and> length new \<le> length (filter (\<lambda>dj. \<not> length_is_0 (add di dj)) js)"
proof (induction js arbitrary: ends)
  case Nil
  then show ?case by simp
next
  case (Cons dj js)
  show ?case
  proof (cases "length_is_0 (add di dj)")
    case True
    with Cons show ?thesis by simp
  next
    case False
    with Cons.prems obtain e where e: "followLine state m dj = Some e"
      by (auto split: option.splits)
    show ?thesis
    proof (cases "equals m e")
      case True
      with False e Cons.prems have "start_inner state m di cw js ends = Some r" by simp
      from Cons.IH [OF this] False show ?thesis by auto
    next
      case ne: False
      with False e Cons.prems
      have "start_inner state m di cw js (ends @ [\<lparr>position = e, clockwise = cw\<rparr>]) = Some r"
        by simp
      from Cons.IH [OF this] False show ?thesis by auto
    qed
  qed
qed

lemma directions_not_back:
  "di \<in> set directions \<Longrightarrow>
     length (filter (\<lambda>dj. \<not> length_is_0 (add di dj)) directions) = 3"
  by (auto simp: directions_def length_is_0_def add_def)

lemma start_body_length:
  assumes "di \<in> set directions" and "start_body state p di ends = Some r"
  shows "\<exists>new. r = ends @ new \<and> length new \<le> 3"
proof -
  from assms(2) obtain m where m: "followLine state p di = Some m"
    by (auto simp: start_body_def split: option.splits)
  show ?thesis
  proof (cases "equals p m")
    case True
    with m assms(2) show ?thesis by (simp add: start_body_def)
  next
    case False
    let ?c = "getContext state m"
    show ?thesis
    proof (cases "(of_bool (left ?c) + of_bool (right ?c) + of_bool (up ?c) + of_bool (down ?c) :: int) = 1")
      case True
      with False m assms(2)
      have "r = ends @ [\<lparr>position = m, clockwise = (x di \<noteq> 0)\<rparr>]"
        by (simp add: start_body_def Let_def)
      then show ?thesis by simp
    next
      case no: False
      with False m assms(2)
      have "start_inner state m di (x di \<noteq> 0) directions ends = Some r"
        by (simp add: start_body_def Let_def)
      from start_inner_length [OF this] directions_not_back [OF assms(1)]
      show ?thesis by auto
    qed
  qed
qed

lemma start_outer_length:
  "set ds \<subseteq> set directions \<Longrightarrow> start_outer state p ds ends = Some r \<Longrightarrow>
     length r \<le> length ends + 3 * length ds"
proof (induction ds arbitrary: ends)
  case Nil
  then show ?case by simp
next
  case (Cons di ds)
  from Cons.prems(2) obtain mid where mid: "start_body state p di ends = Some mid"
    and rest: "start_outer state p ds mid = Some r"
    by (auto split: option.splits)
  from Cons.prems(1) have "di \<in> set directions" by simp
  from start_body_length [OF this mid] have "length mid \<le> length ends + 3" by auto
  moreover from Cons.prems(1) have "set ds \<subseteq> set directions" by simp
  from Cons.IH [OF this rest] have "length r \<le> length mid + 3 * length ds" .
  ultimately show ?case by simp
qed

lemma directions_nonzero: "d \<in> set directions \<Longrightarrow> d \<noteq> Vector 0 0"
  by (auto simp: directions_def)

lemma start_inner_returns:
  assumes fin: "finite {p. isSpecial state p}"
  shows "set js \<subseteq> set directions \<Longrightarrow> \<exists>r. start_inner state m di cw js ends = Some r"
proof (induction js arbitrary: ends)
  case Nil
  then show ?case by simp
next
  case (Cons dj js)
  then have "dj \<noteq> Vector 0 0" by (simp add: directions_nonzero)
  from followLine_returns [OF fin this]
  obtain e where "followLine state m dj = Some e" by blast
  with Cons show ?case by simp
qed

lemma start_body_returns:
  assumes fin: "finite {p. isSpecial state p}" and di: "di \<in> set directions"
  shows "\<exists>r. start_body state p di ends = Some r"
proof -
  from followLine_returns [OF fin directions_nonzero [OF di]]
  obtain m where "followLine state p di = Some m" by blast
  with start_inner_returns [OF fin subset_refl] show ?thesis
    by (simp add: start_body_def Let_def)
qed

lemma start_outer_returns:
  assumes fin: "finite {p. isSpecial state p}"
  shows "set ds \<subseteq> set directions \<Longrightarrow> \<exists>r. start_outer state p ds ends = Some r"
proof (induction ds arbitrary: ends)
  case Nil
  then show ?case by simp
next
  case (Cons di ds)
  then have "di \<in> set directions" by simp
  from start_body_returns [OF fin this]
  obtain mid where "start_body state p di ends = Some mid" by blast
  with Cons show ?case by simp
qed

lemma DrawMove_start_returns:
  assumes "finite {p. isSpecial state p}"
  shows "\<exists>r. DrawMove_start state e0 p = Some r"
  using start_outer_returns [OF assms subset_refl, of p "[]"]
  by (auto simp: DrawMove_start_def)

lemma DrawMove_start_length:
  assumes a: "DrawMove_start state e0 p = Some r"
  shows "\<exists>ends. strategy r = DrawMove (Some ends) \<and> length ends \<le> 12"
proof -
  from a obtain ends where e: "start_outer state p directions [] = Some ends"
    and r: "r = \<lparr> strategy = DrawMove (Some ends), calls = [], thrown = None \<rparr>"
    by (auto simp: DrawMove_start_def split: option.splits)
  from start_outer_length [OF subset_refl e] have "length ends \<le> 12"
    by (simp add: directions_def)
  with r show ?thesis by simp
qed

section \<open>Evaluation on concrete grids\<close>

lemmas trace_eval =
  DrawMove_start_def directions_def start_body_def equals_def length_is_0_def
  followLine_def followLine_loop.simps grid_def add_def clone_def Let_def

lemmas draw_eval = drawLine_def hscan_upto vscan_upto upto_rec1 Let_def

lemma run_grid_finite: "finite {c. isSpecial run_grid c}"
  by (simp add: run_grid_def grid_def)

lemma marked_drawLine:
  "marked (drawLine s e cw) =
     {Vector px (if cw then y s else y e) | px. min (x s) (x e) < px \<and> px \<le> max (x s) (x e)} \<union>
     {Vector (if cw then x e else x s) py | py. min (y s) (y e) < py \<and> py \<le> max (y s) (y e)} \<union>
     {s, e, Vector (if cw then x e else x s) (if cw then y s else y e)}"
  by (simp add: drawLine_def Let_def marked_append marked_hscan marked_vscan
      Un_commute Un_left_commute insert_commute)

lemma mem_marked_drawLine:
  "Vector qx qy \<in> marked (drawLine (Vector ax ay) (Vector bx bz) cw) \<longleftrightarrow>
     (qy = (if cw then ay else bz) \<and> min ax bx \<le> qx \<and> qx \<le> max ax bx) \<or>
     (qx = (if cw then bx else ax) \<and> min ay bz \<le> qy \<and> qy \<le> max ay bz)"
proof (cases cw)
  case True
  show ?thesis
  proof (cases "ax \<le> bx"; cases "ay \<le> bz")
  qed (auto simp: marked_drawLine True min_def max_def)
next
  case False
  show ?thesis
  proof (cases "ax \<le> bx"; cases "ay \<le> bz")
  qed (auto simp: marked_drawLine False min_def max_def)
qed

lemma box_outline:
  "marked (drawLine a b True) \<union> marked (drawLine a b False) =
     {q. min (x a) (x b) \<le> x q \<and> x q \<le> max (x a) (x b) \<and>
         min (y a) (y b) \<le> y q \<and> y q \<le> max (y a) (y b) \<and>
         (x q = x a \<or> x q = x b \<or> y q = y a \<or> y q = y b)}"
proof (rule set_eqI)
  fix q
  obtain ax ay where a: "a = Vector ax ay" by (cases a)
  obtain bx bz where b: "b = Vector bx bz" by (cases b)
  obtain qx qy where q: "q = Vector qx qy" by (cases q)
  show "q \<in> marked (drawLine a b True) \<union> marked (drawLine a b False) \<longleftrightarrow>
        q \<in> {q. min (x a) (x b) \<le> x q \<and> x q \<le> max (x a) (x b) \<and>
         min (y a) (y b) \<le> y q \<and> y q \<le> max (y a) (y b) \<and>
         (x q = x a \<or> x q = x b \<or> y q = y a \<or> y q = y b)}"
    unfolding a b q Un_iff mem_marked_drawLine
    by auto
qed

lemma marked_drawLine_runs:
  "marked (drawLine a b cw) =
     {q. (y q = (if cw then y a else y b) \<and> min (x a) (x b) \<le> x q \<and> x q \<le> max (x a) (x b)) \<or>
         (x q = (if cw then x b else x a) \<and> min (y a) (y b) \<le> y q \<and> y q \<le> max (y a) (y b))}"
proof (rule set_eqI)
  fix q
  obtain ax ay where a: "a = Vector ax ay" by (cases a)
  obtain bx bz where b: "b = Vector bx bz" by (cases b)
  obtain qx qy where q: "q = Vector qx qy" by (cases q)
  show "q \<in> marked (drawLine a b cw) \<longleftrightarrow>
     q \<in> {q. (y q = (if cw then y a else y b) \<and> min (x a) (x b) \<le> x q \<and> x q \<le> max (x a) (x b)) \<or>
         (x q = (if cw then x b else x a) \<and> min (y a) (y b) \<le> y q \<and> y q \<le> max (y a) (y b))}"
    unfolding a b q mem_marked_drawLine by simp
qed

lemma marked_row_0_3:
  "marked (drawLine (Vector 0 0) (Vector 3 0) True) =
     {Vector 0 0, Vector 1 0, Vector 2 0, Vector 3 0}"
  by (auto simp: draw_eval)

section \<open>The claims\<close>

subsection \<open>C1: where followLine stops\<close>

text \<open>
  C1, as the code has it. \<open>followLine(p, d)\<close> steps one cell in direction \<open>d\<close> while
  the next cell is special and its context is straight. It returns exactly when some cell
  ahead is not both: if that cell is not special, the result is the cell before it (the
  start, or the last straight cell); if that cell is special but not straight (a branch,
  a corner or the end of a line), the loop steps onto it and the result is that cell
  itself. So a corner is never crossed, and it is the corner that is returned. The call
  does not return exactly when every cell ahead is special and straight, which cannot
  happen on a grid with finitely many special cells unless \<open>d\<close> is the zero vector.
  All this holds for every direction vector, the four unit axis directions among them.
\<close>

theorem followLine_stops:
  "(followLine state p d = Some q \<longleftrightarrow> (\<exists>n. stops_at state p d n q)) \<and>
   (followLine state p d = None \<longleftrightarrow> (\<forall>n. straightCell state (cell p d (Suc n)))) \<and>
   (finite {c. isSpecial state c} \<and> d \<noteq> Vector 0 0 \<longrightarrow> (\<exists>r. followLine state p d = Some r))"
  using followLine_iff followLine_diverges followLine_returns by blast

text \<open>
  The theorem at the run of the spec's scenario, traced from its left end: one straight
  cell, then the right end of the run.
\<close>

theorem followLine_stops_witness:
  "stops_at run_grid (Vector 2 5) (Vector 1 0) 1 (Vector 4 5) \<and>
   followLine run_grid (Vector 2 5) (Vector 1 0) = Some (Vector 4 5) \<and>
   finite {c. isSpecial run_grid c} \<and> Vector 1 0 \<noteq> Vector 0 0"
proof -
  have h: "stops_at run_grid (Vector 2 5) (Vector 1 0) 1 (Vector 4 5)"
    by (simp add: stops_at_def cell_def straightCell_def straight_def run_grid_def grid_def add_def)
  then have "\<exists>n. stops_at run_grid (Vector 2 5) (Vector 1 0) n (Vector 4 5)" ..
  with followLine_stops [of run_grid "Vector 2 5" "Vector 1 0" "Vector 4 5"] h run_grid_finite
  show ?thesis by simp
qed

text \<open>
  C1 as stated has \<open>followLine\<close> return the last straight cell when the next cell is a
  branch or corner. On the run at row 5, columns 2 to 4, tracing from (2,5) to the right
  passes the straight cell (3,5); the next cell (4,5) is special and not straight, and it
  is (4,5) that is returned, not (3,5).
\<close>

theorem followLine_returns_corner:
  "followLine run_grid (Vector 2 5) (Vector 1 0) = Some (Vector 4 5) \<and>
   straightCell run_grid (Vector 3 5) \<and>
   isSpecial run_grid (Vector 4 5) \<and>
   \<not> straightCell run_grid (Vector 4 5)"
  by (simp add: trace_eval run_grid_def straightCell_def straight_def)

subsection \<open>C2: how many ends start collects\<close>

text \<open>
  C2, as the code has it. When \<open>start\<close> returns, the list it stores has at most
  twelve entries, and one iteration of the outer loop, for one axis direction, appends at
  most three: the inner loop leaves out only the direction straight back. On a grid with
  finitely many special cells \<open>start\<close> does return.
\<close>

theorem start_at_most_twelve_ends:
  "(DrawMove_start state e0 p = Some r \<longrightarrow>
      (\<exists>ends. strategy r = DrawMove (Some ends) \<and> length ends \<le> 12)) \<and>
   (di \<in> set directions \<and> start_body state p di ends = Some ends' \<longrightarrow>
      (\<exists>new. ends' = ends @ new \<and> length new \<le> 3)) \<and>
   (finite {c. isSpecial state c} \<longrightarrow> (\<exists>r. DrawMove_start state e0 p = Some r))"
  using DrawMove_start_length start_body_length DrawMove_start_returns by blast

text \<open>
  The theorem on the run of the spec's scenario, pressed at its left end: \<open>start\<close>
  returns one end, which the iteration for direction (1,0) appends.
\<close>

theorem start_at_most_twelve_ends_witness:
  "DrawMove_start run_grid None (Vector 2 5) =
     Some \<lparr> strategy = DrawMove (Some [\<lparr>position = Vector 4 5, clockwise = True\<rparr>]),
            calls = [], thrown = None \<rparr> \<and>
   length [\<lparr>position = Vector 4 5, clockwise = True\<rparr>] \<le> 12 \<and>
   Vector 1 0 \<in> set directions \<and>
   start_body run_grid (Vector 2 5) (Vector 1 0) [] =
     Some [\<lparr>position = Vector 4 5, clockwise = True\<rparr>] \<and>
   (\<exists>new. [\<lparr>position = Vector 4 5, clockwise = True\<rparr>] = [] @ new \<and> length new \<le> 3) \<and>
   finite {c. isSpecial run_grid c}"
proof -
  let ?new = "[\<lparr>position = Vector 4 5, clockwise = True\<rparr>]"
  let ?r = "\<lparr> strategy = DrawMove (Some ?new), calls = [], thrown = None \<rparr>"
  have h1: "DrawMove_start run_grid None (Vector 2 5) = Some ?r"
    by (simp add: trace_eval run_grid_def)
  have h2: "Vector 1 0 \<in> set directions"
    by (simp add: directions_def)
  have h3: "start_body run_grid (Vector 2 5) (Vector 1 0) [] = Some ?new"
    by (simp add: trace_eval run_grid_def)
  from start_at_most_twelve_ends
    [of run_grid None "Vector 2 5" ?r "Vector 1 0" "[]" ?new]
  show ?thesis using h1 h2 h3 run_grid_finite by simp
qed

text \<open>
  C2 as stated bounds the list by eight entries, one or two for each direction. Pressed
  at the centre of the filled diamond, every direction reaches a midpoint from which all
  three onward directions make progress: twelve ends, three for each direction.
\<close>

theorem start_diamond_twelve_ends:
  "DrawMove_start diamond_grid None (Vector 0 0) =
     Some \<lparr> strategy = DrawMove (Some
        [\<lparr>position = Vector 2 0, clockwise = True\<rparr>,
         \<lparr>position = Vector 1 1, clockwise = True\<rparr>,
         \<lparr>position = Vector 1 (- 1), clockwise = True\<rparr>,
         \<lparr>position = Vector (- 2) 0, clockwise = True\<rparr>,
         \<lparr>position = Vector (- 1) 1, clockwise = True\<rparr>,
         \<lparr>position = Vector (- 1) (- 1), clockwise = True\<rparr>,
         \<lparr>position = Vector 1 1, clockwise = False\<rparr>,
         \<lparr>position = Vector (- 1) 1, clockwise = False\<rparr>,
         \<lparr>position = Vector 0 2, clockwise = False\<rparr>,
         \<lparr>position = Vector 1 (- 1), clockwise = False\<rparr>,
         \<lparr>position = Vector (- 1) (- 1), clockwise = False\<rparr>,
         \<lparr>position = Vector 0 (- 2), clockwise = False\<rparr>]),
       calls = [], thrown = None \<rparr>"
  by (simp add: trace_eval diamond_grid_def)

subsection \<open>C3: move clears the preview first\<close>

text \<open>
  C3, as the code has it. For the Box, Line and Move strategies, whatever their fields
  hold, the first call \<open>move(p)\<close> issues on the grid is \<open>clearDraw\<close>, before any
  drawing call. Freeform's \<open>move(p)\<close> issues the single call \<open>setValue(p, value)\<close> and
  never clears.
\<close>

theorem move_clears_first:
  "(\<exists>cs. calls (move state (DrawBox s e) p) = ClearDraw # cs) \<and>
   (\<exists>cs. calls (move state (DrawLine s) p) = ClearDraw # cs) \<and>
   (\<exists>cs. calls (move state (DrawMove es) p) = ClearDraw # cs) \<and>
   calls (move state (DrawFreeform v) p) = [SetValue p v]"
  by (simp add: DrawBox_move_def DrawLine_move_def DrawMove_move_def DrawFreeform_move_def
      Let_def split: option.splits)

text \<open>
  C3 as stated covers Freeform as well. Its \<open>move((1,1))\<close> with the glyph \<open>O\<close> issues
  \<open>setValue\<close> alone: a drawing mutation with no \<open>clearDraw\<close> before it.
\<close>

theorem freeform_move_does_not_clear:
  "calls (move run_grid (DrawFreeform (Some CHR ''O'')) (Vector 1 1)) =
     [SetValue (Vector 1 1) (Some CHR ''O'')]"
  by (simp add: DrawFreeform_move_def)

subsection \<open>C4: the scenario of the three-cell run\<close>

text \<open>
  C4. On the grid whose only special cells are (2,5), (3,5) and (4,5), the context of
  (2,5) has only \<open>right\<close> set; \<open>start((2,5))\<close> of the Move strategy stores the single
  end at (4,5) with \<open>clockwise = true\<close>; \<open>move((2,8))\<close> then clears and calls
  \<open>drawLine((2,8), (4,5), true)\<close>, whose last call marks the corner (4,8), on any
  grid.
\<close>

theorem move_scenario:
  "getContext run_grid (Vector 2 5) =
     \<lparr> left = False, right = True, up = False, down = False \<rparr> \<and>
   start run_grid (DrawMove None) (Vector 2 5) =
     Some \<lparr> strategy = DrawMove (Some [\<lparr>position = Vector 4 5, clockwise = True\<rparr>]),
            calls = [], thrown = None \<rparr> \<and>
   calls (move state (DrawMove (Some [\<lparr>position = Vector 4 5, clockwise = True\<rparr>])) (Vector 2 8)) =
     ClearDraw # drawLine (Vector 2 8) (Vector 4 5) True \<and>
   drawLine (Vector 2 8) (Vector 4 5) True =
     [DrawSpecial (Vector 3 8), DrawSpecial (Vector 4 8),
      DrawSpecial (Vector 4 6), DrawSpecial (Vector 4 7), DrawSpecial (Vector 4 8),
      DrawSpecial (Vector 2 8), DrawSpecial (Vector 4 5), DrawSpecial (Vector 4 8)]"
proof (intro conjI)
  show "getContext run_grid (Vector 2 5) =
     \<lparr> left = False, right = True, up = False, down = False \<rparr>"
    by (simp add: run_grid_def grid_def add_def)
  show "start run_grid (DrawMove None) (Vector 2 5) =
     Some \<lparr> strategy = DrawMove (Some [\<lparr>position = Vector 4 5, clockwise = True\<rparr>]),
            calls = [], thrown = None \<rparr>"
    by (simp add: trace_eval run_grid_def)
  show "calls (move state (DrawMove (Some [\<lparr>position = Vector 4 5, clockwise = True\<rparr>])) (Vector 2 8)) =
     ClearDraw # drawLine (Vector 2 8) (Vector 4 5) True"
    by (simp add: DrawMove_move_def)
  show "drawLine (Vector 2 8) (Vector 4 5) True =
     [DrawSpecial (Vector 3 8), DrawSpecial (Vector 4 8),
      DrawSpecial (Vector 4 6), DrawSpecial (Vector 4 7), DrawSpecial (Vector 4 8),
      DrawSpecial (Vector 2 8), DrawSpecial (Vector 4 5), DrawSpecial (Vector 4 8)]"
    by (simp add: draw_eval)
qed

subsection \<open>C5: the corner of drawLine\<close>

text \<open>
  C5. The last call of \<open>drawLine\<close> marks the corner \<open>(vX, hY)\<close>: the end's column and
  the start's row when \<open>clockwise\<close> is true, the start's column and the end's row when
  it is false.
\<close>

theorem drawLine_corner:
  "last (drawLine s e True) = DrawSpecial (Vector (x e) (y s)) \<and>
   last (drawLine s e False) = DrawSpecial (Vector (x s) (y e))"
  by (simp add: drawLine_def Let_def)

subsection \<open>C6: the two scans of drawLine\<close>

text \<open>
  C6, as the code has it. \<open>drawLine\<close> issues the calls of the horizontal scan, then
  those of the vertical scan, then marks the start, the end and the corner. The
  horizontal scan marks, in increasing order, exactly the cells of row \<open>hY\<close> with
  \<open>hX1 < x \<le> hX2\<close>, and the vertical scan exactly the cells of column \<open>vX\<close> with
  \<open>vY1 < y \<le> vY2\<close>: the lower bound is excluded and the upper bound is included,
  since the loop test reads the counter before incrementing it.
\<close>

theorem drawLine_scans:
  "drawLine s e cw =
     hscan (min (x s) (x e)) (max (x s) (x e)) (if cw then y s else y e) @
     vscan (min (y s) (y e)) (max (y s) (y e)) (if cw then x e else x s) @
     [DrawSpecial s, DrawSpecial e,
      DrawSpecial (Vector (if cw then x e else x s) (if cw then y s else y e))] \<and>
   hscan a b r = map (\<lambda>px. DrawSpecial (Vector px r)) [a + 1..b] \<and>
   marked (hscan a b r) = {Vector px r | px. a < px \<and> px \<le> b} \<and>
   vscan a b c = map (\<lambda>py. DrawSpecial (Vector c py)) [a + 1..b] \<and>
   marked (vscan a b c) = {Vector c py | py. a < py \<and> py \<le> b}"
  using hscan_upto vscan_upto marked_hscan marked_vscan
  by (simp add: drawLine_def Let_def)

text \<open>
  C6 as stated excludes both bounds. From (0,0) to (2,2) the horizontal scan runs over
  \<open>hX1 = 0\<close>, \<open>hX2 = 2\<close> and marks (2,0) besides (1,0); the vertical scan marks (2,2)
  besides (2,1).
\<close>

theorem drawLine_scan_reaches_bound:
  "hscan 0 2 0 = [DrawSpecial (Vector 1 0), DrawSpecial (Vector 2 0)] \<and>
   vscan 0 2 2 = [DrawSpecial (Vector 2 1), DrawSpecial (Vector 2 2)] \<and>
   drawLine (Vector 0 0) (Vector 2 2) True =
     [DrawSpecial (Vector 1 0), DrawSpecial (Vector 2 0),
      DrawSpecial (Vector 2 1), DrawSpecial (Vector 2 2),
      DrawSpecial (Vector 0 0), DrawSpecial (Vector 2 2), DrawSpecial (Vector 2 0)]"
  by (simp add: draw_eval)

subsection \<open>C7: the orientation Line.move infers\<close>

text \<open>
  C7. After \<open>start(a)\<close>, \<open>move(p)\<close> of the Line strategy clears and draws one line from
  \<open>a\<close> to \<open>p\<close>, with \<open>clockwise\<close> true exactly when the anchor's context has \<open>up\<close> and
  \<open>down\<close> set or the context of \<open>p\<close> has \<open>left\<close> and \<open>right\<close> set. The cells it
  marks are those of one bent path: the run between the two columns along the anchor's row
  and the run between the two rows along the column of \<open>p\<close> when \<open>clockwise\<close> is true,
  along the row of \<open>p\<close> and the anchor's column when it is false. With the anchor (0,0)
  on a vertical line and the drag point (3,0), \<open>clockwise\<close> is true, the corner marked is
  (3,0), and the cells marked are the four cells from (0,0) to (3,0).
\<close>

theorem line_move_orientation:
  "calls (DrawLine_move state (Some a) p) =
     ClearDraw # drawLine a p
       ((up (getContext state a) \<and> down (getContext state a)) \<or>
        (left (getContext state p) \<and> right (getContext state p))) \<and>
   marked (calls (DrawLine_move state (Some a) p)) =
     {q. (y q = (if (up (getContext state a) \<and> down (getContext state a)) \<or>
                    (left (getContext state p) \<and> right (getContext state p))
                 then y a else y p) \<and>
          min (x a) (x p) \<le> x q \<and> x q \<le> max (x a) (x p)) \<or>
         (x q = (if (up (getContext state a) \<and> down (getContext state a)) \<or>
                    (left (getContext state p) \<and> right (getContext state p))
                 then x p else x a) \<and>
          min (y a) (y p) \<le> y q \<and> y q \<le> max (y a) (y p))} \<and>
   (up (getContext state (Vector 0 0)) \<and> down (getContext state (Vector 0 0)) \<longrightarrow>
      calls (DrawLine_move state (Some (Vector 0 0)) (Vector 3 0)) =
        ClearDraw # drawLine (Vector 0 0) (Vector 3 0) True \<and>
      last (drawLine (Vector 0 0) (Vector 3 0) True) = DrawSpecial (Vector 3 0) \<and>
      marked (calls (DrawLine_move state (Some (Vector 0 0)) (Vector 3 0))) =
        {Vector 0 0, Vector 1 0, Vector 2 0, Vector 3 0})"
proof (intro conjI impI)
  let ?cw = "(up (getContext state a) \<and> down (getContext state a)) \<or>
        (left (getContext state p) \<and> right (getContext state p))"
  show c: "calls (DrawLine_move state (Some a) p) = ClearDraw # drawLine a p ?cw"
    by (simp add: DrawLine_move_def Let_def)
  show "marked (calls (DrawLine_move state (Some a) p)) =
     {q. (y q = (if ?cw then y a else y p) \<and>
          min (x a) (x p) \<le> x q \<and> x q \<le> max (x a) (x p)) \<or>
         (x q = (if ?cw then x p else x a) \<and>
          min (y a) (y p) \<le> y q \<and> y q \<le> max (y a) (y p))}"
    unfolding c by (simp add: marked_drawLine_runs)
  assume v: "up (getContext state (Vector 0 0)) \<and> down (getContext state (Vector 0 0))"
  then show s: "calls (DrawLine_move state (Some (Vector 0 0)) (Vector 3 0)) =
        ClearDraw # drawLine (Vector 0 0) (Vector 3 0) True"
    by (simp add: DrawLine_move_def Let_def)
  show "last (drawLine (Vector 0 0) (Vector 3 0) True) = DrawSpecial (Vector 3 0)"
    by (simp add: drawLine_def Let_def)
  show "marked (calls (DrawLine_move state (Some (Vector 0 0)) (Vector 3 0))) =
        {Vector 0 0, Vector 1 0, Vector 2 0, Vector 3 0}"
    unfolding s by (simp add: marked_row_0_3)
qed

text \<open>
  The scenario on a grid that has it: a vertical line of three cells through (0,0).
\<close>

theorem line_move_orientation_witness:
  "up (getContext vertical_grid (Vector 0 0)) \<and> down (getContext vertical_grid (Vector 0 0)) \<and>
   calls (DrawLine_move vertical_grid (Some (Vector 0 0)) (Vector 3 0)) =
     ClearDraw # drawLine (Vector 0 0) (Vector 3 0) True \<and>
   last (drawLine (Vector 0 0) (Vector 3 0) True) = DrawSpecial (Vector 3 0) \<and>
   marked (calls (DrawLine_move vertical_grid (Some (Vector 0 0)) (Vector 3 0))) =
     {Vector 0 0, Vector 1 0, Vector 2 0, Vector 3 0}"
proof -
  have h: "up (getContext vertical_grid (Vector 0 0)) \<and> down (getContext vertical_grid (Vector 0 0))"
    by (simp add: vertical_grid_def grid_def add_def)
  with line_move_orientation [of vertical_grid "Vector 0 0" "Vector 3 0"]
  show ?thesis by blast
qed

subsection \<open>C8: the two orientations of drawLine\<close>

text \<open>
  C8. Either orientation of \<open>drawLine(A, B, _)\<close> marks \<open>A\<close>, \<open>B\<close> and its corner, and
  when \<open>A\<close> and \<open>B\<close> share a column or a row the two orientations mark the same set of
  cells.
\<close>

theorem drawLine_orientations:
  "{s, e, Vector (x e) (y s)} \<subseteq> marked (drawLine s e True) \<and>
   {s, e, Vector (x s) (y e)} \<subseteq> marked (drawLine s e False) \<and>
   (x s = x e \<or> y s = y e \<longrightarrow> marked (drawLine s e True) = marked (drawLine s e False))"
proof (intro conjI impI)
  show "{s, e, Vector (x e) (y s)} \<subseteq> marked (drawLine s e True)"
    by (simp add: marked_drawLine)
  show "{s, e, Vector (x s) (y e)} \<subseteq> marked (drawLine s e False)"
    by (simp add: marked_drawLine)
  assume "x s = x e \<or> y s = y e"
  then show "marked (drawLine s e True) = marked (drawLine s e False)"
    by (cases s; cases e) (auto simp: marked_drawLine)
qed

text \<open>
  The theorem on the vertical segment from (1,1) to (1,4): both orientations mark its
  four cells.
\<close>

theorem drawLine_orientations_witness:
  "(x (Vector 1 1) = x (Vector 1 4) \<or> y (Vector 1 1) = y (Vector 1 4)) \<and>
   marked (drawLine (Vector 1 1) (Vector 1 4) True) =
     {Vector 1 1, Vector 1 2, Vector 1 3, Vector 1 4} \<and>
   marked (drawLine (Vector 1 1) (Vector 1 4) False) =
     {Vector 1 1, Vector 1 2, Vector 1 3, Vector 1 4}"
proof -
  have t: "marked (drawLine (Vector 1 1) (Vector 1 4) True) =
     {Vector 1 1, Vector 1 2, Vector 1 3, Vector 1 4}"
    by (auto simp: draw_eval)
  with drawLine_orientations [of "Vector 1 1" "Vector 1 4"] show ?thesis
    by simp
qed

subsection \<open>C9: the outline Box.move draws\<close>

text \<open>
  C9. After \<open>start(A)\<close>, \<open>move(B)\<close> of the Box strategy clears and then issues the
  calls of \<open>drawLine(A, B, true)\<close> followed by those of \<open>drawLine(A, B, false)\<close>. The
  cells marked are the union of the two lines' cells, and that union is the outline of
  the rectangle spanned by \<open>A\<close> and \<open>B\<close>: every cell of the rectangle lying on the row
  or the column of \<open>A\<close> or of \<open>B\<close>, the four corners included.
\<close>

theorem box_move_outline:
  "calls (DrawBox_move (Some a) e b) = ClearDraw # (drawLine a b True @ drawLine a b False) \<and>
   marked (calls (DrawBox_move (Some a) e b)) =
     marked (drawLine a b True) \<union> marked (drawLine a b False) \<and>
   marked (calls (DrawBox_move (Some a) e b)) =
     {q. min (x a) (x b) \<le> x q \<and> x q \<le> max (x a) (x b) \<and>
         min (y a) (y b) \<le> y q \<and> y q \<le> max (y a) (y b) \<and>
         (x q = x a \<or> x q = x b \<or> y q = y a \<or> y q = y b)}"
proof (intro conjI)
  show c: "calls (DrawBox_move (Some a) e b) = ClearDraw # (drawLine a b True @ drawLine a b False)"
    by (simp add: DrawBox_move_def)
  show m: "marked (calls (DrawBox_move (Some a) e b)) =
     marked (drawLine a b True) \<union> marked (drawLine a b False)"
    by (simp add: c marked_append)
  show "marked (calls (DrawBox_move (Some a) e b)) =
     {q. min (x a) (x b) \<le> x q \<and> x q \<le> max (x a) (x b) \<and>
         min (y a) (y b) \<le> y q \<and> y q \<le> max (y a) (y b) \<and>
         (x q = x a \<or> x q = x b \<or> y q = y a \<or> y q = y b)}"
    unfolding m by (rule box_outline)
qed

subsection \<open>C10: the strategy a new controller starts with\<close>


end
